theory Spec2Isabelle
  imports Main
begin

section \<open>Values shared by the page and its collaborators\<close>

text \<open>
  A \<^verbatim>\<open>uuid.UUID\<close> and a \<^verbatim>\<open>time.Time\<close> are opaque to the page: it stores them and hands
  them back. A page object is identified by its \<^verbatim>\<open>id\<close>.
\<close>

type_synonym uuid = nat
type_synonym time = nat

text \<open>
  Go's \<^verbatim>\<open>error\<close> values. \<open>ErrNotFound\<close> is the error of the History, \<open>ErrExternal\<close> is
  whatever \<^verbatim>\<open>url.Parse\<close>, the component factory or the markup engine report, and
  \<open>Wrapf e u p\<close> is \<^verbatim>\<open>errors.Wrapf(e, "loading %s in test page %p failed", u, p)\<close>: the
  cause together with the URL and the identity of the page.
\<close>

datatype 'u err =
    ErrNotFound
  | ErrExternal string
  | Wrapf "'u err" 'u uuid

text \<open>
  The collaborators of \<^verbatim>\<open>src/drivers/test/page.go\<close> that are not part of it: the
  standard library (\<^verbatim>\<open>fmt.Sprintf\<close>, \<^verbatim>\<open>url.Parse\<close>, \<^verbatim>\<open>(*url.URL).String\<close>), the
  component factory, the markup engine and the element directory. They are parameters
  of the model, each with a state of its own (\<open>'f\<close>, \<open>'m\<close>, \<open>'e\<close>) that a call returns
  updated; \<open>'u\<close> is a parsed URL and \<open>'c\<close> the identity of a component.
\<close>

record ('u, 'c, 'm, 'f, 'e) env =
  Sprintf :: "string \<Rightarrow> string list \<Rightarrow> string"
  url_Parse :: "string \<Rightarrow> 'u err + 'u"
  url_String :: "'u \<Rightarrow> string"
  ComponentNameFromURL :: "'u \<Rightarrow> string"
  factory_New :: "'f \<Rightarrow> string \<Rightarrow> ('u err + 'c) \<times> 'f"
  NewMarkup :: "'f \<Rightarrow> 'm"
  Mount :: "'m \<Rightarrow> 'c \<Rightarrow> 'u err option \<times> 'm"
  Dismount :: "'m \<Rightarrow> 'c \<Rightarrow> 'm"
  elements_Add :: "'e \<Rightarrow> uuid \<Rightarrow> 'e"
  elements_Remove :: "'e \<Rightarrow> uuid \<Rightarrow> 'e"

section \<open>History\<close>

text \<open>
  Modelled from the spec: \<^verbatim>\<open>app.History\<close> (\<^verbatim>\<open>app.NewHistory\<close> and its lock wrapper
  \<^verbatim>\<open>app.NewConcurrentHistory\<close>) is not among the sources. Sections 3 and 4.3 of the
  specification give it as a list of location strings with a cursor,
  \<open>0 \<le> cursor < length entries\<close> once non-empty:
  \<^item> \<open>Current\<close> returns \<open>entries[cursor]\<close> and fails NotFound when empty (here: whenever
    the cursor is not the index of an entry, which under the invariant is emptiness);
  \<^item> \<open>NewEntry\<close> drops the entries after the cursor, appends, and moves the cursor to the
    new last entry;
  \<^item> \<open>Previous\<close> fails NotFound when the cursor is 0, else steps back and returns the new
    current entry;
  \<^item> \<open>Next\<close> fails NotFound at the last entry, else steps forward and returns the new
    current entry (an empty history has no next entry either);
  \<^item> \<open>CanPrevious\<close> and \<open>CanNext\<close> are the same tests without the step.
  The lock wrapper serialises calls and changes no result. \<open>History_wf\<close> is the invariant.
\<close>

record History =
  entries :: "string list"
  cursor :: nat

definition NewHistory :: History where
  "NewHistory = \<lparr>entries = [], cursor = 0\<rparr>"

definition History_wf :: "History \<Rightarrow> bool" where
  "History_wf h \<longleftrightarrow> (if entries h = [] then cursor h = 0 else cursor h < length (entries h))"

definition History_Current :: "History \<Rightarrow> 'u err + string" where
  "History_Current h =
     (if cursor h < length (entries h) then Inr (entries h ! cursor h) else Inl ErrNotFound)"

definition History_NewEntry :: "string \<Rightarrow> History \<Rightarrow> History" where
  "History_NewEntry u h =
     (let es = take (Suc (cursor h)) (entries h) @ [u]
      in \<lparr>entries = es, cursor = length es - 1\<rparr>)"

definition History_CanPrevious :: "History \<Rightarrow> bool" where
  "History_CanPrevious h \<longleftrightarrow> 0 < cursor h"

definition History_CanNext :: "History \<Rightarrow> bool" where
  "History_CanNext h \<longleftrightarrow> Suc (cursor h) < length (entries h)"

definition History_Previous :: "History \<Rightarrow> ('u err + string) \<times> History" where
  "History_Previous h =
     (if cursor h = 0 then (Inl ErrNotFound, h)
      else let h' = h\<lparr>cursor := cursor h - 1\<rparr> in (History_Current h', h'))"

definition History_Next :: "History \<Rightarrow> ('u err + string) \<times> History" where
  "History_Next h =
     (if \<not> Suc (cursor h) < length (entries h) then (Inl ErrNotFound, h)
      else let h' = h\<lparr>cursor := Suc (cursor h)\<rparr> in (History_Current h', h'))"

section \<open>The page of the test driver\<close>

text \<open>
  \<^verbatim>\<open>type page struct\<close>. The factory and the markup engine are held by their state, the
  close callback acts on the element directory, and \<open>None\<close> is Go's \<^verbatim>\<open>nil\<close>.
\<close>

record ('c, 'm, 'f, 'e) page =
  id_page :: uuid
  factory :: 'f
  markup :: 'm
  history :: History
  lastFocus :: time
  component :: "'c option"
  onClose :: "('e \<Rightarrow> 'e) option"

definition Component :: "('c, 'm, 'f, 'e) page \<Rightarrow> 'c option" where
  "Component p = component p"

text \<open>
  \<^verbatim>\<open>func (p *page) load(u *url.URL) error\<close>: dismount what is mounted, resolve the
  component named by the URL, mount it, and only then replace \<^verbatim>\<open>p.component\<close>.
\<close>

definition load ::
  "('u, 'c, 'm, 'f, 'e) env \<Rightarrow> 'u \<Rightarrow> ('c, 'm, 'f, 'e) page \<Rightarrow> 'u err option \<times> ('c, 'm, 'f, 'e) page"
where
  "load env u p =
     (let p1 = (case component p of
                  None \<Rightarrow> p
                | Some c \<Rightarrow> p\<lparr>markup := Dismount env (markup p) c\<rparr>);
          (r, f) = factory_New env (factory p1) (ComponentNameFromURL env u);
          p2 = p1\<lparr>factory := f\<rparr>
      in case r of
           Inl e \<Rightarrow> (Some e, p2)
         | Inr compo \<Rightarrow>
             (case Mount env (markup p2) compo of
                (Some e, m) \<Rightarrow> (Some (Wrapf e u (id_page p)), p2\<lparr>markup := m\<rparr>)
              | (None, m) \<Rightarrow> (None, p2\<lparr>markup := m, component := Some compo\<rparr>)))"

text \<open>\<^verbatim>\<open>func (p *page) Load(rawurl string, v ...interface{}) error\<close>.\<close>

definition Load ::
  "('u, 'c, 'm, 'f, 'e) env \<Rightarrow> string \<Rightarrow> string list \<Rightarrow> ('c, 'm, 'f, 'e) page
     \<Rightarrow> 'u err option \<times> ('c, 'm, 'f, 'e) page"
where
  "Load env rawurl v p =
     (case url_Parse env (Sprintf env rawurl v) of
        Inl e \<Rightarrow> (Some e, p)
      | Inr u \<Rightarrow>
          (let cur = (History_Current (history p) :: 'u err + string);
               p1 = (if isl cur \<or> projr cur \<noteq> url_String env u
                     then p\<lparr>history := History_NewEntry (url_String env u) (history p)\<rparr>
                     else p)
           in load env u p1))"

text \<open>\<^verbatim>\<open>func (p *page) Reload() error\<close>.\<close>

definition Reload ::
  "('u, 'c, 'm, 'f, 'e) env \<Rightarrow> ('c, 'm, 'f, 'e) page \<Rightarrow> 'u err option \<times> ('c, 'm, 'f, 'e) page"
where
  "Reload env p =
     (case History_Current (history p) of
        Inl e \<Rightarrow> (Some e, p)
      | Inr rawurl \<Rightarrow>
          (case url_Parse env rawurl of
             Inl e \<Rightarrow> (Some e, p)
           | Inr u \<Rightarrow> load env u p))"

text \<open>\<^verbatim>\<open>CanPrevious\<close>, \<^verbatim>\<open>Previous\<close>, \<^verbatim>\<open>CanNext\<close>, \<^verbatim>\<open>Next\<close>.\<close>

definition CanPrevious :: "('c, 'm, 'f, 'e) page \<Rightarrow> bool" where
  "CanPrevious p = History_CanPrevious (history p)"

definition Previous ::
  "('u, 'c, 'm, 'f, 'e) env \<Rightarrow> ('c, 'm, 'f, 'e) page \<Rightarrow> 'u err option \<times> ('c, 'm, 'f, 'e) page"
where
  "Previous env p =
     (case History_Previous (history p) of
        (Inl e, h) \<Rightarrow> (Some e, p\<lparr>history := h\<rparr>)
      | (Inr rawurl, h) \<Rightarrow>
          (case url_Parse env rawurl of
             Inl e \<Rightarrow> (Some e, p\<lparr>history := h\<rparr>)
           | Inr u \<Rightarrow> load env u (p\<lparr>history := h\<rparr>)))"

definition CanNext :: "('c, 'm, 'f, 'e) page \<Rightarrow> bool" where
  "CanNext p = History_CanNext (history p)"

definition Next ::
  "('u, 'c, 'm, 'f, 'e) env \<Rightarrow> ('c, 'm, 'f, 'e) page \<Rightarrow> 'u err option \<times> ('c, 'm, 'f, 'e) page"
where
  "Next env p =
     (case History_Next (history p) of
        (Inl e, h) \<Rightarrow> (Some e, p\<lparr>history := h\<rparr>)
      | (Inr rawurl, h) \<Rightarrow>
          (case url_Parse env rawurl of
             Inl e \<Rightarrow> (Some e, p\<lparr>history := h\<rparr>)
           | Inr u \<Rightarrow> load env u (p\<lparr>history := h\<rparr>)))"

text \<open>
  \<^verbatim>\<open>func (p *page) Referer() *url.URL\<close>. \<^verbatim>\<open>u, _ := url.Parse(rawurl)\<close> drops the error:
  \<open>u\<close> is \<^verbatim>\<open>nil\<close> when parsing fails. The result of \<^verbatim>\<open>p.history.Next()\<close> is dropped too.
\<close>

definition Referer ::
  "('u, 'c, 'm, 'f, 'e) env \<Rightarrow> ('c, 'm, 'f, 'e) page \<Rightarrow> 'u option \<times> ('c, 'm, 'f, 'e) page"
where
  "Referer env p =
     (case (History_Previous (history p) :: ('u err + string) \<times> History) of
        (Inl e, h) \<Rightarrow> (None, p\<lparr>history := h\<rparr>)
      | (Inr rawurl, h) \<Rightarrow>
          (let u = (case url_Parse env rawurl of Inl e \<Rightarrow> None | Inr u \<Rightarrow> Some u);
               h' = snd (History_Next h :: ('u err + string) \<times> History)
           in (u, p\<lparr>history := h'\<rparr>)))"

text \<open>
  \<^verbatim>\<open>func (p *page) Close()\<close> calls \<^verbatim>\<open>p.onClose()\<close>; calling a \<^verbatim>\<open>nil\<close> function panics.
\<close>

definition Close :: "('c, 'm, 'f, 'e) page \<Rightarrow> 'e \<Rightarrow> string + 'e" where
  "Close p els =
     (case onClose p of
        None \<Rightarrow> Inl ''invalid memory address or nil pointer dereference''
      | Some f \<Rightarrow> Inr (f els))"

text \<open>
  \<^verbatim>\<open>func newPage(d *Driver, c app.PageConfig) (app.Page, error)\<close>. Of the test driver
  only the two fields the function reads are modelled; \<^verbatim>\<open>uuid.New()\<close> and \<^verbatim>\<open>time.Now()\<close>
  are the arguments \<open>newid\<close> and \<open>now\<close>. \<^verbatim>\<open>app.NewPageWithLogs\<close> wraps the page in a
  logger that forwards every call. The page and the driver hold the same factory, so the
  factory state the page leaves is the driver's.
\<close>

record ('f, 'e) test_Driver =
  d_factory :: 'f
  d_elements :: 'e

record PageConfig =
  DefaultURL :: string

definition newPage ::
  "('u, 'c, 'm, 'f, 'e) env \<Rightarrow> uuid \<Rightarrow> time \<Rightarrow> ('f, 'e) test_Driver \<Rightarrow> PageConfig
     \<Rightarrow> (('c, 'm, 'f, 'e) page \<times> 'u err option) \<times> ('f, 'e) test_Driver"
where
  "newPage env newid now d c =
     (let rawPage = \<lparr>id_page = newid, factory = d_factory d,
                     markup = NewMarkup env (d_factory d), history = NewHistory,
                     lastFocus = now, component = None, onClose = None\<rparr>;
          d1 = d\<lparr>d_elements := elements_Add env (d_elements d) newid\<rparr>;
          pg = rawPage\<lparr>onClose := Some (\<lambda>els. elements_Remove env els newid)\<rparr>
      in if length (DefaultURL c) \<noteq> 0
         then (let (e, pg') = Load env (DefaultURL c) [] pg
               in ((pg', e), d1\<lparr>d_factory := factory pg'\<rparr>))
         else ((pg, None), d1))"

section \<open>The dispatch queue of the MacOS driver\<close>












section \<open>Concrete collaborators for the examples\<close>

text \<open>
  A small instance of the collaborators: a URL is its string and parses unless it holds
  a space, a component is its name, the factory counts its calls and knows every name but
  \<open>''missing''\<close>, the markup engine is the list of mounted components and refuses
  \<open>''broken''\<close>, and the element directory is the list of the calls made on it.
\<close>

datatype dir_call = Added uuid | Removed uuid

definition ex_env :: "(string, string, string list, nat, dir_call list) env" where
  "ex_env = \<lparr>
     Sprintf = (\<lambda>fmt v. fmt),
     url_Parse = (\<lambda>s. if CHR '' '' \<in> set s then Inl (ErrExternal ''invalid URL'') else Inr s),
     url_String = (\<lambda>u. u),
     ComponentNameFromURL = (\<lambda>u. u),
     factory_New = (\<lambda>f name. (if name = ''missing''
                                then Inl (ErrExternal ''component is not registered'')
                                else Inr name, Suc f)),
     NewMarkup = (\<lambda>f. []),
     Mount = (\<lambda>m c. if c = ''broken'' then (Some (ErrExternal ''mount failed''), m)
                      else (None, c # m)),
     Dismount = (\<lambda>m c. removeAll c m),
     elements_Add = (\<lambda>els i. els @ [Added i]),
     elements_Remove = (\<lambda>els i. els @ [Removed i])\<rparr>"

definition ex_page :: "(string, string list, nat, dir_call list) page" where
  "ex_page = \<lparr>id_page = 7, factory = 0, markup = [''home''],
              history = \<lparr>entries = [''home''], cursor = 0\<rparr>,
              lastFocus = 0, component = Some ''home'',
              onClose = Some (\<lambda>els. els @ [Removed 7])\<rparr>"

definition ex_page2 :: "(string, string list, nat, dir_call list) page" where
  "ex_page2 = ex_page\<lparr>history := \<lparr>entries = [''home'', ''settings''], cursor = 1\<rparr>,
                     markup := [''settings''], component := Some ''settings''\<rparr>"

definition ex_driver :: "(nat, dir_call list) test_Driver" where
  "ex_driver = \<lparr>d_factory = 0, d_elements = []\<rparr>"




section \<open>Properties of the History\<close>

lemma History_NewEntry_changes: "History_NewEntry u h \<noteq> h"
proof
  assume eq: "History_NewEntry u h = h"
  have e: "entries (History_NewEntry u h) = take (Suc (cursor h)) (entries h) @ [u]"
    by (simp add: History_NewEntry_def Let_def)
  have c: "cursor (History_NewEntry u h) = min (length (entries h)) (Suc (cursor h))"
    by (simp add: History_NewEntry_def Let_def)
  from e have "length (entries (History_NewEntry u h)) = Suc (min (length (entries h)) (Suc (cursor h)))"
    by simp
  with eq have l: "length (entries h) = Suc (min (length (entries h)) (Suc (cursor h)))"
    by simp
  from c eq have "cursor h = min (length (entries h)) (Suc (cursor h))"
    by simp
  with l show False
    by (simp add: min_def split: if_splits)
qed

lemma History_wf_NewHistory: "History_wf NewHistory"
  by (simp add: History_wf_def NewHistory_def)

lemma History_wf_NewEntry: "History_wf (History_NewEntry u h)"
  by (simp add: History_wf_def History_NewEntry_def Let_def)

lemma History_wf_Previous:
  "History_wf h \<Longrightarrow> History_wf (snd (History_Previous h :: ('u err + string) \<times> History))"
  by (auto simp add: History_wf_def History_Previous_def Let_def split: if_splits)

lemma History_wf_Next:
  "History_wf h \<Longrightarrow> History_wf (snd (History_Next h :: ('u err + string) \<times> History))"
  by (auto simp add: History_wf_def History_Next_def Let_def split: if_splits)

lemma set_entries_NewEntry:
  "set (entries (History_NewEntry u h)) \<subseteq> insert u (set (entries h))"
  by (auto simp add: History_NewEntry_def Let_def dest: in_set_takeD)

lemma History_Previous_Next:
  assumes "History_wf h" and "0 < cursor h"
  shows "(History_Previous h :: ('u err + string) \<times> History) =
           (Inr (entries h ! (cursor h - 1)), h\<lparr>cursor := cursor h - 1\<rparr>)"
    and "snd (History_Next (h\<lparr>cursor := cursor h - 1\<rparr>) :: ('u err + string) \<times> History) = h"
  using assms
  by (auto simp add: History_wf_def History_Previous_def History_Next_def History_Current_def
      Let_def split: if_splits)

section \<open>What the internal load transition leaves alone\<close>

lemma load_history: "history (snd (load env u p)) = history p"
  by (simp add: load_def Let_def split: sum.splits prod.splits option.splits)

lemma load_onClose: "onClose (snd (load env u p)) = onClose p"
  by (simp add: load_def Let_def split: sum.splits prod.splits option.splits)

lemma load_id_page: "id_page (snd (load env u p)) = id_page p"
  by (simp add: load_def Let_def split: sum.splits prod.splits option.splits)

lemma Load_onClose: "onClose (snd (Load env rawurl v p)) = onClose p"
  by (simp add: Load_def Let_def load_onClose split: sum.splits)

lemma Load_id_page: "id_page (snd (Load env rawurl v p)) = id_page p"
  by (simp add: Load_def Let_def load_id_page split: sum.splits)

lemma load_component_on_error:
  "fst (load env u p) = Some e \<Longrightarrow> component (snd (load env u p)) = component p"
  by (auto simp add: load_def Let_def split: sum.splits prod.splits option.splits)

lemma Load_parsed:
  fixes env :: "('u, 'c, 'm, 'f, 'e) env"
  assumes "url_Parse env (Sprintf env rawurl v) = Inr u"
  shows "Load env rawurl v p =
           load env u (if (History_Current (history p) :: 'u err + string) = Inr (url_String env u)
                       then p
                       else p\<lparr>history := History_NewEntry (url_String env u) (history p)\<rparr>)"
proof -
  let ?cur = "History_Current (history p) :: 'u err + string"
  have c: "(isl ?cur \<or> projr ?cur \<noteq> url_String env u) \<longleftrightarrow> ?cur \<noteq> Inr (url_String env u)"
    by (cases ?cur) auto
  show ?thesis
    using assms c by (simp add: Load_def Let_def)
qed

text \<open>
  \<open>Load\<close> is the only writer of History entries, and what it writes is the printed form
  of a URL that parsed. So a History that starts well-formed stays so, and while
  \<^verbatim>\<open>url.Parse\<close> accepts what \<^verbatim>\<open>String\<close> prints, every entry parses.
\<close>

lemma Load_History_wf:
  "History_wf (history p) \<Longrightarrow> History_wf (history (snd (Load env rawurl v p)))"
proof (cases "url_Parse env (Sprintf env rawurl v)")
  case (Inl e)
  assume "History_wf (history p)"
  with Inl show ?thesis by (simp add: Load_def)
next
  case (Inr u)
  assume "History_wf (history p)"
  then show ?thesis
    by (simp add: Load_parsed [OF Inr] load_history History_wf_NewEntry)
qed

lemma Load_entries_parse:
  fixes env :: "('u, 'c, 'm, 'f, 'e) env"
  assumes printed: "\<forall>u. \<exists>u'. url_Parse env (url_String env u) = Inr u'"
    and inv: "\<forall>s\<in>set (entries (history p)). \<exists>u. url_Parse env s = Inr u"
  shows "\<forall>s\<in>set (entries (history (snd (Load env rawurl v p)))). \<exists>u. url_Parse env s = Inr u"
proof (cases "url_Parse env (Sprintf env rawurl v)")
  case (Inl e)
  with inv show ?thesis by (simp add: Load_def)
next
  case (Inr u)
  show ?thesis
  proof
    fix s
    assume "s \<in> set (entries (history (snd (Load env rawurl v p))))"
    then have "s \<in> set (entries (history p)) \<or> s = url_String env u"
      using set_entries_NewEntry [of "url_String env u" "history p"]
      by (auto simp add: Load_parsed [OF Inr] load_history split: if_splits)
    with printed inv show "\<exists>u. url_Parse env s = Inr u"
      by blast
  qed
qed

section \<open>Load\<close>

text \<open>
  Claim C9. When the string handed to \<^verbatim>\<open>url.Parse\<close> (the raw URL after \<^verbatim>\<open>fmt.Sprintf\<close>) does
  not parse, \<open>Load\<close> returns the parse error and the page is what it was: no history
  entry, the cursor where it stood, nothing dismounted, nothing mounted.
\<close>

theorem Load_parse_error:
  "url_Parse env (Sprintf env rawurl v) = Inl e \<Longrightarrow> Load env rawurl v p = (Some e, p)"
  by (simp add: Load_def)

theorem Load_parse_error_witness:
  "url_Parse ex_env (Sprintf ex_env ''bad url'' []) = Inl (ErrExternal ''invalid URL'')
   \<and> Load ex_env ''bad url'' [] ex_page = (Some (ErrExternal ''invalid URL''), ex_page)"
proof -
  have h: "url_Parse ex_env (Sprintf ex_env ''bad url'' []) = Inl (ErrExternal ''invalid URL'')"
    by (simp add: ex_env_def)
  from Load_parse_error [OF h] h show ?thesis by simp
qed

text \<open>
  Claim C4. When the URL parses, \<open>Load\<close> calls \<open>NewEntry\<close> with the printed URL exactly
  when \<open>Current\<close> fails or returns another string, and then performs the internal load on
  that page; \<open>NewEntry\<close> always changes the History, so the History after \<open>Load\<close> differs
  from the one before under that condition only.
\<close>

theorem Load_records_entry:
  fixes env :: "('u, 'c, 'm, 'f, 'e) env"
  assumes "url_Parse env (Sprintf env rawurl v) = Inr u"
  shows "Load env rawurl v p =
           load env u (if (History_Current (history p) :: 'u err + string) = Inr (url_String env u)
                       then p
                       else p\<lparr>history := History_NewEntry (url_String env u) (history p)\<rparr>)
         \<and> history (snd (Load env rawurl v p)) =
             (if (History_Current (history p) :: 'u err + string) = Inr (url_String env u)
              then history p
              else History_NewEntry (url_String env u) (history p))
         \<and> (history (snd (Load env rawurl v p)) \<noteq> history p
              \<longleftrightarrow> (History_Current (history p) :: 'u err + string) \<noteq> Inr (url_String env u))"
proof -
  let ?cur = "History_Current (history p) :: 'u err + string"
  have L: "Load env rawurl v p =
           load env u (if ?cur = Inr (url_String env u) then p
                       else p\<lparr>history := History_NewEntry (url_String env u) (history p)\<rparr>)"
    using assms by (rule Load_parsed)
  have H: "history (snd (Load env rawurl v p)) =
             (if ?cur = Inr (url_String env u) then history p
              else History_NewEntry (url_String env u) (history p))"
    by (simp only: L load_history) simp
  have N: "History_NewEntry (url_String env u) (history p) \<noteq> history p"
    by (rule History_NewEntry_changes)
  have I: "history (snd (Load env rawurl v p)) \<noteq> history p
              \<longleftrightarrow> ?cur \<noteq> Inr (url_String env u)"
    using N by (simp only: H split: if_splits) simp
  from L H I show ?thesis by blast
qed

theorem Load_records_entry_witness:
  "url_Parse ex_env (Sprintf ex_env ''settings'' []) = Inr ''settings''
   \<and> history (snd (Load ex_env ''settings'' [] ex_page)) = \<lparr>entries = [''home'', ''settings''], cursor = 1\<rparr>
   \<and> history (snd (Load ex_env ''home'' [] ex_page)) = history ex_page"
proof -
  have h1: "url_Parse ex_env (Sprintf ex_env ''settings'' []) = Inr ''settings''"
    by (simp add: ex_env_def)
  have h2: "url_Parse ex_env (Sprintf ex_env ''home'' []) = Inr ''home''"
    by (simp add: ex_env_def)
  have s: "url_String ex_env ''settings'' = ''settings''" "url_String ex_env ''home'' = ''home''"
    by (simp_all add: ex_env_def)
  have c: "(History_Current (history ex_page) :: string err + string) = Inr ''home''"
    by (simp add: History_Current_def ex_page_def)
  have n: "History_NewEntry ''settings'' (history ex_page) = \<lparr>entries = [''home'', ''settings''], cursor = 1\<rparr>"
    by (simp add: History_NewEntry_def ex_page_def)
  note a = Load_records_entry [OF h1, of ex_page, THEN conjunct2, THEN conjunct1]
  note b = Load_records_entry [OF h2, of ex_page, THEN conjunct2, THEN conjunct1]
  from a b h1 s c n show ?thesis by simp
qed

text \<open>
  Claim C3, as the code has it. When \<open>Load\<close> fails after parsing, the component field is
  what it was before the call: it still names the component that was dismounted, and is
  \<^verbatim>\<open>nil\<close> only if nothing was mounted. The markup engine has seen the dismount of the old
  component and at most a failed mount of the new one, never a mount of the old one. An
  error of the factory is returned as it is; an error of the markup engine is returned
  wrapped with the URL and the identity of the page.
\<close>

theorem Load_failure_state:
  fixes env :: "('u, 'c, 'm, 'f, 'e) env"
  assumes parse: "url_Parse env (Sprintf env rawurl v) = Inr u"
    and fail: "fst (Load env rawurl v p) = Some e"
  shows "Component (snd (Load env rawurl v p)) = Component p
         \<and> (let m1 = (case component p of None \<Rightarrow> markup p
                                         | Some c \<Rightarrow> Dismount env (markup p) c)
            in case fst (factory_New env (factory p) (ComponentNameFromURL env u)) of
                 Inl fe \<Rightarrow> e = fe \<and> markup (snd (Load env rawurl v p)) = m1
               | Inr compo \<Rightarrow>
                   (\<exists>me. fst (Mount env m1 compo) = Some me \<and> e = Wrapf me u (id_page p))
                   \<and> markup (snd (Load env rawurl v p)) = snd (Mount env m1 compo))"
proof -
  let ?p1 = "if (History_Current (history p) :: 'u err + string) = Inr (url_String env u)
             then p
             else p\<lparr>history := History_NewEntry (url_String env u) (history p)\<rparr>"
  have L: "Load env rawurl v p = load env u ?p1"
    using parse by (rule Load_parsed)
  have f: "factory ?p1 = factory p" and c: "component ?p1 = component p"
    and m: "markup ?p1 = markup p" and i: "id_page ?p1 = id_page p"
    by simp_all
  from fail have fl: "fst (load env u ?p1) = Some e"
    by (simp only: L)
  show ?thesis
    unfolding L Component_def
    using fl f c m i
    by (cases "component p")
       (auto simp add: load_def Let_def split: sum.splits prod.splits option.splits if_splits)
qed


theorem Load_failure_state_witness:
  "url_Parse ex_env (Sprintf ex_env ''broken'' []) = Inr ''broken''
   \<and> fst (Load ex_env ''broken'' [] ex_page) = Some (Wrapf (ErrExternal ''mount failed'') ''broken'' 7)
   \<and> Component (snd (Load ex_env ''broken'' [] ex_page)) = Component ex_page"
proof -
  have h1: "url_Parse ex_env (Sprintf ex_env ''broken'' []) = Inr ''broken''"
    by (simp add: ex_env_def)
  have h2: "fst (Load ex_env ''broken'' [] ex_page) = Some (Wrapf (ErrExternal ''mount failed'') ''broken'' 7)"
    by (simp add: Load_def load_def ex_env_def ex_page_def History_Current_def
        History_NewEntry_def Let_def)
  from Load_failure_state [OF h1 h2, THEN conjunct1] h1 h2 show ?thesis by simp
qed

text \<open>
  Claim C3 as stated fails: loading a URL whose component the factory does not know,
  on a page showing \<open>''home''\<close>, dismounts \<open>''home''\<close>, returns the factory's error
  unwrapped, and leaves \<open>Component\<close> at \<open>''home''\<close>, not \<^verbatim>\<open>nil\<close>.
\<close>

theorem Load_failure_keeps_component_counterexample:
  "fst (Load ex_env ''missing'' [] ex_page) = Some (ErrExternal ''component is not registered'')
   \<and> markup (snd (Load ex_env ''missing'' [] ex_page)) = []
   \<and> Component (snd (Load ex_env ''missing'' [] ex_page)) = Some ''home''
   \<and> Component (snd (Load ex_env ''missing'' [] ex_page)) \<noteq> None"
  by (simp add: Load_def load_def ex_env_def ex_page_def History_Current_def
      History_NewEntry_def Let_def Component_def)

section \<open>Reload, Previous and Next\<close>

text \<open>
  Claim C5. When the History has no previous entry, \<open>Previous\<close> returns its NotFound
  error; when it has no next entry, so does \<open>Next\<close>; when it is empty, so does \<open>Reload\<close>.
  In each case the page returned is the page given: its component, its markup engine,
  its factory and its History are untouched.
\<close>

theorem History_step_fails:
  "(\<not> CanPrevious p \<longrightarrow> Previous env p = (Some ErrNotFound, p))
   \<and> (\<not> CanNext p \<longrightarrow> Next env p = (Some ErrNotFound, p))
   \<and> (entries (history p) = [] \<longrightarrow> Reload env p = (Some ErrNotFound, p))"
  by (simp add: CanPrevious_def History_CanPrevious_def Previous_def History_Previous_def
      CanNext_def History_CanNext_def Next_def History_Next_def
      Reload_def History_Current_def)

theorem History_step_fails_witness:
  "\<not> CanPrevious (ex_page\<lparr>history := NewHistory\<rparr>)
   \<and> \<not> CanNext (ex_page\<lparr>history := NewHistory\<rparr>)
   \<and> entries (history (ex_page\<lparr>history := NewHistory\<rparr>)) = []
   \<and> Previous ex_env (ex_page\<lparr>history := NewHistory\<rparr>) = (Some ErrNotFound, ex_page\<lparr>history := NewHistory\<rparr>)
   \<and> Next ex_env (ex_page\<lparr>history := NewHistory\<rparr>) = (Some ErrNotFound, ex_page\<lparr>history := NewHistory\<rparr>)
   \<and> Reload ex_env (ex_page\<lparr>history := NewHistory\<rparr>) = (Some ErrNotFound, ex_page\<lparr>history := NewHistory\<rparr>)"
proof -
  let ?p = "ex_page\<lparr>history := NewHistory\<rparr>"
  have a: "\<not> CanPrevious ?p" by (simp add: CanPrevious_def History_CanPrevious_def NewHistory_def)
  have b: "\<not> CanNext ?p" by (simp add: CanNext_def History_CanNext_def NewHistory_def)
  have c: "entries (history ?p) = []" by (simp add: NewHistory_def)
  from History_step_fails [of ?p ex_env] a b c show ?thesis by simp
qed



section \<open>Referer\<close>

text \<open>
  Claim C6. On a well-formed History whose entries parse, \<open>Referer\<close> returns \<^verbatim>\<open>nil\<close>
  exactly when there is no previous entry, otherwise the parsed entry just below the
  current one, and the page it leaves is the page it was given: the step back is undone
  by the step forward.
\<close>

theorem Referer_peek:
  fixes env :: "('u, 'c, 'm, 'f, 'e) env"
  assumes wf: "History_wf (history p)"
    and parses: "\<forall>s\<in>set (entries (history p)). \<exists>u. url_Parse env s = Inr u"
  shows "snd (Referer env p) = p
         \<and> (fst (Referer env p) = None \<longleftrightarrow> \<not> CanPrevious p)
         \<and> (CanPrevious p \<longrightarrow>
              (\<exists>u. url_Parse env (entries (history p) ! (cursor (history p) - 1)) = Inr u
                   \<and> fst (Referer env p) = Some u))"
proof (cases "0 < cursor (history p)")
  case False
  then show ?thesis
    by (simp add: Referer_def History_Previous_def CanPrevious_def History_CanPrevious_def)
next
  case True
  let ?h = "history p"
  let ?s = "entries ?h ! (cursor ?h - 1)"
  from wf True have "cursor ?h - 1 < length (entries ?h)"
    by (auto simp add: History_wf_def split: if_splits)
  then have "?s \<in> set (entries ?h)"
    by simp
  with parses obtain u where u: "url_Parse env ?s = Inr u"
    by blast
  have R: "Referer env p = (Some u, p)"
    using History_Previous_Next [OF wf True, where ?'u = 'u] u
    by (simp add: Referer_def Let_def)
  from R u True show ?thesis
    by (simp add: CanPrevious_def History_CanPrevious_def)
qed

theorem Referer_peek_witness:
  "History_wf (history ex_page2)
   \<and> entries (history ex_page2) = [''home'', ''settings'']
   \<and> url_Parse ex_env ''home'' = Inr ''home''
   \<and> url_Parse ex_env ''settings'' = Inr ''settings''
   \<and> CanPrevious ex_page2
   \<and> Referer ex_env ex_page2 = (Some ''home'', ex_page2)"
proof -
  have en: "entries (history ex_page2) = [''home'', ''settings'']"
    by (simp add: ex_page2_def ex_page_def)
  have ph: "url_Parse ex_env ''home'' = Inr ''home''"
    by (simp add: ex_env_def)
  have pt: "url_Parse ex_env ''settings'' = Inr ''settings''"
    by (simp add: ex_env_def)
  have wf: "History_wf (history ex_page2)"
    by (simp add: ex_page2_def ex_page_def History_wf_def)
  have ps: "\<forall>s\<in>set (entries (history ex_page2)). \<exists>u. url_Parse ex_env s = Inr u"
    by (simp add: ex_page2_def ex_page_def ex_env_def)
  have cp: "CanPrevious ex_page2"
    by (simp add: ex_page2_def ex_page_def CanPrevious_def History_CanPrevious_def)
  have e: "url_Parse ex_env (entries (history ex_page2) ! (cursor (history ex_page2) - 1)) = Inr ''home''"
    by (simp add: ex_page2_def ex_page_def ex_env_def)
  from Referer_peek [OF wf ps] cp e have "Referer ex_env ex_page2 = (Some ''home'', ex_page2)"
    by (metis prod.collapse sum.inject(2))
  with wf en ph pt cp show ?thesis by blast
qed

section \<open>newPage and Close\<close>

lemma newPage_result:
  "newPage env newid now d c =
     (let pg = \<lparr>id_page = newid, factory = d_factory d, markup = NewMarkup env (d_factory d),
                history = NewHistory, lastFocus = now, component = None,
                onClose = Some (\<lambda>els. elements_Remove env els newid)\<rparr>;
          d1 = d\<lparr>d_elements := elements_Add env (d_elements d) newid\<rparr>
      in if DefaultURL c = [] then ((pg, None), d1)
         else ((snd (Load env (DefaultURL c) [] pg), fst (Load env (DefaultURL c) [] pg)),
               d1\<lparr>d_factory := factory (snd (Load env (DefaultURL c) [] pg))\<rparr>))"
  by (simp add: newPage_def Let_def split: prod.splits)

lemma newPage_onClose:
  assumes "newPage env newid now d c = ((pg, e), d')"
  shows "onClose pg = Some (\<lambda>els. elements_Remove env els newid)"
  using assms
  by (auto simp add: newPage_result Let_def Load_onClose split: if_splits)

text \<open>
  Claim C8. The callback \<open>newPage\<close> registers removes the page from the element
  directory. \<open>Close\<close> calls it, and nothing records that it did: a second \<open>Close\<close> calls
  it again, on the directory the first one left.
\<close>

theorem Close_calls_onClose_again:
  assumes "newPage env newid now d c = ((pg, e), d')"
  shows "Close pg els = Inr (elements_Remove env els newid)
         \<and> Close pg (elements_Remove env els newid) =
             Inr (elements_Remove env (elements_Remove env els newid) newid)"
  using newPage_onClose [OF assms]
  by (simp add: Close_def)

theorem Close_calls_onClose_again_witness:
  "d_elements (snd (newPage ex_env 7 0 ex_driver \<lparr>DefaultURL = ''home''\<rparr>)) = [Added 7]
   \<and> Close (fst (fst (newPage ex_env 7 0 ex_driver \<lparr>DefaultURL = ''home''\<rparr>))) [Added 7]
       = Inr [Added 7, Removed 7]
   \<and> Close (fst (fst (newPage ex_env 7 0 ex_driver \<lparr>DefaultURL = ''home''\<rparr>))) [Added 7, Removed 7]
       = Inr [Added 7, Removed 7, Removed 7]"
proof -
  let ?r = "newPage ex_env 7 0 ex_driver \<lparr>DefaultURL = ''home''\<rparr>"
  have n: "?r = ((fst (fst ?r), snd (fst ?r)), snd ?r)"
    by simp
  have d: "d_elements (snd ?r) = [Added 7]"
    by (simp add: newPage_result Let_def ex_env_def ex_driver_def)
  have r: "elements_Remove ex_env = (\<lambda>els i. els @ [Removed i])"
    by (simp add: ex_env_def)
  from Close_calls_onClose_again [OF n, of "[Added 7]"] d r show ?thesis
    by simp
qed

text \<open>
  Claim C10. \<open>newPage\<close> adds the fresh page to the element directory and then, when a
  default URL is configured, loads it. Whatever \<open>Load\<close> returns, \<open>newPage\<close> returns the
  page with that error, and the directory it leaves is the one it was given with the
  page added: no removal follows a failed load.
\<close>

theorem newPage_registers:
  assumes "newPage env newid now d c = ((pg, e), d')"
  shows "d_elements d' = elements_Add env (d_elements d) newid
         \<and> id_page pg = newid
         \<and> (length (DefaultURL c) \<noteq> 0 \<longrightarrow>
              (e, pg) = Load env (DefaultURL c) []
                 \<lparr>id_page = newid, factory = d_factory d, markup = NewMarkup env (d_factory d),
                  history = NewHistory, lastFocus = now, component = None,
                  onClose = Some (\<lambda>els. elements_Remove env els newid)\<rparr>)"
  using assms
  by (auto simp add: newPage_result Let_def Load_id_page split: if_splits)

theorem newPage_registers_witness:
  "length (DefaultURL \<lparr>DefaultURL = ''missing''\<rparr>) \<noteq> 0
   \<and> snd (fst (newPage ex_env 7 0 ex_driver \<lparr>DefaultURL = ''missing''\<rparr>))
       = Some (ErrExternal ''component is not registered'')
   \<and> id_page (fst (fst (newPage ex_env 7 0 ex_driver \<lparr>DefaultURL = ''missing''\<rparr>))) = 7
   \<and> d_elements (snd (newPage ex_env 7 0 ex_driver \<lparr>DefaultURL = ''missing''\<rparr>)) = [Added 7]"
proof -
  let ?r = "newPage ex_env 7 0 ex_driver \<lparr>DefaultURL = ''missing''\<rparr>"
  have n: "?r = ((fst (fst ?r), snd (fst ?r)), snd ?r)"
    by simp
  have a: "elements_Add ex_env (d_elements ex_driver) 7 = [Added 7]"
    by (simp add: ex_env_def ex_driver_def)
  have e: "snd (fst ?r) = Some (ErrExternal ''component is not registered'')"
    by (simp add: newPage_result Let_def Load_def load_def ex_env_def ex_driver_def
        NewHistory_def History_Current_def History_NewEntry_def)
  from newPage_registers [OF n] a e show ?thesis
    by simp
qed

section \<open>The loop of Run\<close>







end
